theory Spec2Isabelle
  imports Complex_Main
begin

section \<open>Data model (frontend/src/types/index.ts)\<close>

text \<open>
  The interfaces of \<^verbatim>\<open>types/index.ts\<close> as records. Field names are the source's, with
  a prefix where two interfaces share a name or the name is a HOL constant:
  \<^verbatim>\<open>ChatMessage.id/type/products\<close> are \<open>msg_id\<close>, \<open>msg_type\<close>, \<open>msg_products\<close>;
  \<^verbatim>\<open>SearchRequest.session_id/price_range\<close> are \<open>req_session_id\<close>, \<open>req_price_range\<close>;
  \<^verbatim>\<open>price_range.min/max\<close> are \<open>pr_min\<close>, \<open>pr_max\<close>. An optional field
  (\<^verbatim>\<open>f?: T\<close>) is a \<open>T option\<close>, \<open>None\<close> when the property is absent.

  A JavaScript \<^verbatim>\<open>number\<close> that the page only stores (\<^verbatim>\<open>purchases\<close>, \<^verbatim>\<open>score\<close>) is kept as
  a number of HOL; the price bounds, which the page prints into a string, are integers.
  A \<^verbatim>\<open>Date\<close> is its millisecond count.
\<close>

record Product =
  title :: string
  price :: string
  image_url :: string
  product_url :: string
  purchases :: int
  good_reviews :: string
  bad_reviews :: string
  score :: real
  reasoning :: string

record SearchResponse =
  products :: "Product list"
  session_id :: string
  query_processed :: string
  suggestions :: "string list"

record price_range =
  pr_min :: int
  pr_max :: int

record SearchRequest =
  query :: string
  req_session_id :: "string option"
  req_price_range :: "price_range option"
  features_to_add :: "string list option"
  features_to_remove :: "string list option"

datatype role = User | Assistant

record ChatMessage =
  msg_id :: string
  msg_type :: role
  content :: string
  timestamp :: nat
  msg_products :: "Product list option"

text \<open>
  The page holds a \<^verbatim>\<open>Partial<RefinementOptions>\<close>: each of the three properties may be
  absent.
\<close>

record RefinementOptions =
  opt_price_range :: "price_range option"
  features :: "string list option"
  verified_reviews_only :: "bool option"

section \<open>JavaScript string operations used by the page\<close>

text \<open>
  Template literals print a number with \<^verbatim>\<open>String(n)\<close>: for an integer below
  \<open>10\<^sup>2\<^sup>1\<close> in magnitude, its decimal digits with a leading minus sign when negative.
\<close>

fun nat_to_string :: "nat \<Rightarrow> string" where
  "nat_to_string n =
     (if n < 10 then [char_of (48 + n)]
      else nat_to_string (n div 10) @ [char_of (48 + n mod 10)])"

declare nat_to_string.simps [simp del]

definition number_to_string :: "int \<Rightarrow> string" where
  "number_to_string i =
     (if i < 0 then CHR ''-'' # nat_to_string (nat (- i)) else nat_to_string (nat i))"

text \<open>\<^verbatim>\<open>Array.prototype.join(sep)\<close> on an array of strings.\<close>

fun join :: "string \<Rightarrow> string list \<Rightarrow> string" where
  "join sep [] = []"
| "join sep [x] = x"
| "join sep (x # y # ys) = x @ sep @ join sep (y # ys)"

section \<open>Remote API client (frontend/src/utils/api.ts)\<close>

text \<open>
  A JSON value as \<^verbatim>\<open>response.data\<close> holds it when nothing constrains its shape. An
  object is the list of its properties; the first binding of a key is the property's value.
\<close>

datatype json =
    JNull
  | JBool bool
  | JNum int
  | JStr string
  | JArr "json list"
  | JObj "(string \<times> json) list"

text \<open>
  What awaiting an axios call gives: the promise resolves with the response data, or it
  rejects. axios rejects when no response arrives (network error, the 30000 ms timeout) and
  when the response has a status outside 200..299; the rejection then carries the status
  and the body the server sent.
\<close>

datatype axios_error =
    NetworkError
  | TimeoutExceeded
  | BadStatus nat json

datatype 'a axios_result = Resolved 'a | Rejected axios_error

text \<open>The only exceptions the client and the page deal with.\<close>

datatype js_error = Error string | TypeError

text \<open>
  The network as the client sees it: \<open>post\<close> answers a POST of a request to a path,
  \<open>get\<close> answers a GET.
\<close>

record network =
  post :: "string \<Rightarrow> SearchRequest \<Rightarrow> SearchResponse axios_result"
  get :: "string \<Rightarrow> json axios_result"

text \<open>
  Every POST the client issues is recorded, with what came back, in a log that the
  operations thread through: it is the observable behaviour of the page towards the server.
\<close>

record api_call =
  path :: string
  request :: SearchRequest
  result :: "SearchResponse axios_result"

type_synonym call_log = "api_call list"

definition api_post ::
  "network \<Rightarrow> string \<Rightarrow> SearchRequest \<Rightarrow> call_log \<Rightarrow> SearchResponse axios_result \<times> call_log" where
  "api_post net p rq calls =
     (let r = post net p rq
      in (r, calls @ [\<lparr>path = p, request = rq, result = r\<rparr>]))"

definition searchProducts ::
  "network \<Rightarrow> SearchRequest \<Rightarrow> call_log \<Rightarrow> (js_error + SearchResponse) \<times> call_log" where
  "searchProducts net rq calls =
     (case api_post net ''/search'' rq calls of
        (Resolved d, calls') \<Rightarrow> (Inr d, calls')
      | (Rejected e, calls') \<Rightarrow> (Inl (Error ''Failed to search products''), calls'))"

definition refineSearch ::
  "network \<Rightarrow> SearchRequest \<Rightarrow> call_log \<Rightarrow> (js_error + SearchResponse) \<times> call_log" where
  "refineSearch net rq calls =
     (case api_post net ''/refine'' rq calls of
        (Resolved d, calls') \<Rightarrow> (Inr d, calls')
      | (Rejected e, calls') \<Rightarrow> (Inl (Error ''Failed to refine search''), calls'))"

text \<open>
  \<^verbatim>\<open>response.data.status\<close>: reading a property of \<^verbatim>\<open>null\<close> throws a TypeError, of an
  object gives the property's value, and of anything else (or of an object without the
  property) gives \<^verbatim>\<open>undefined\<close>, here \<open>None\<close>.
\<close>

fun get_property :: "json \<Rightarrow> string \<Rightarrow> js_error + json option" where
  "get_property JNull k = Inl TypeError"
| "get_property (JObj kvs) k = Inr (map_of kvs k)"
| "get_property v k = Inr None"

text \<open>
  \<open>healthCheck\<close> returns a promise of a boolean; \<open>Inl\<close> would be a rejection of that
  promise. The comparison \<^verbatim>\<open>=== 'healthy'\<close> holds for the string itself only.
\<close>

definition healthCheck :: "network \<Rightarrow> js_error + bool" where
  "healthCheck net =
     (case get net ''/health'' of
        Resolved d \<Rightarrow>
          (case get_property d ''status'' of
             Inr v \<Rightarrow> Inr (v = Some (JStr ''healthy''))
           | Inl e \<Rightarrow> Inr False)
      | Rejected e \<Rightarrow> Inr False)"

section \<open>Refinement query (frontend/src/pages/search.tsx, handleApplyRefinements)\<close>

text \<open>
  Lines 136 to 148: the query starts as \<^verbatim>\<open>'Refine my search'\<close> and three guarded
  \<^verbatim>\<open>+=\<close> extend it. A boolean option is truthy when present and true.
\<close>

definition build_refinement_query :: "RefinementOptions \<Rightarrow> string" where
  "build_refinement_query options =
     (let q0 = ''Refine my search'';
          q1 = (case opt_price_range options of
                  Some pr \<Rightarrow> q0 @ '' with budget between $'' @ number_to_string (pr_min pr)
                              @ '' and $'' @ number_to_string (pr_max pr)
                | None \<Rightarrow> q0);
          q2 = (case features options of
                  Some fs \<Rightarrow> (if length fs > 0
                              then q1 @ '' including features: '' @ join '', '' fs
                              else q1)
                | None \<Rightarrow> q1);
          q3 = (if verified_reviews_only options = Some True
                then q2 @ '' with verified reviews only''
                else q2)
      in q3)"

section \<open>Chat session controller (frontend/src/pages/search.tsx)\<close>

text \<open>
  The \<^verbatim>\<open>useState\<close> cells of \<^verbatim>\<open>SearchPage\<close>. The cells \<^verbatim>\<open>products\<close> and
  \<^verbatim>\<open>suggestions\<close> are \<open>cur_products\<close> and \<open>cur_suggestions\<close> here, apart from the
  response's fields of the same names.
\<close>

record page_state =
  messages :: "ChatMessage list"
  cur_products :: "Product list"
  isLoading :: bool
  sessionId :: string
  cur_suggestions :: "string list"
  isRefinementOpen :: bool
  refinementOptions :: RefinementOptions

definition initial_page :: page_state where
  "initial_page =
     \<lparr>messages = [], cur_products = [], isLoading = False, sessionId = [],
      cur_suggestions = [], isRefinementOpen = False,
      refinementOptions =
        \<lparr>opt_price_range = None, features = None, verified_reviews_only = None\<rparr>\<rparr>"

text \<open>
  Each handler draws two identifiers from \<^verbatim>\<open>uuidv4()\<close> and reads the clock twice, for
  the user message and for the reply. They come from outside the page, so a handler takes
  them as an argument.
\<close>

record stamps =
  user_id :: string
  user_time :: nat
  reply_id :: string
  reply_time :: nat

type_synonym world = "page_state \<times> call_log"

text \<open>
  A handler is an async function with one \<^verbatim>\<open>await\<close>. It runs in two parts: the
  statements up to the \<^verbatim>\<open>await\<close>, which update the page and decide which client
  operation is called with which request, and the statements after it, which run when the
  call has settled, on the page as it is then. \<^verbatim>\<open>setMessages(prev => [...prev, m])\<close>
  appends to the transcript, \<^verbatim>\<open>setMessages([m])\<close> replaces it; the other setters
  store the value they are given.
\<close>

datatype client_op = CallSearchProducts | CallRefineSearch

definition call_api ::
  "client_op \<Rightarrow> network \<Rightarrow> SearchRequest \<Rightarrow> call_log
     \<Rightarrow> (js_error + SearchResponse) \<times> call_log" where
  "call_api cop net rq calls =
     (case cop of
        CallSearchProducts \<Rightarrow> searchProducts net rq calls
      | CallRefineSearch \<Rightarrow> refineSearch net rq calls)"

text \<open>\<^verbatim>\<open>handleInitialSearch\<close>, lines 30 to 43 and lines 45 to 72.\<close>

definition startInitialSearch ::
  "stamps \<Rightarrow> string \<Rightarrow> page_state \<Rightarrow> page_state \<times> client_op \<times> SearchRequest" where
  "startInitialSearch st q s =
     (let s1 = s\<lparr>isLoading := True\<rparr>;
          userMessage = \<lparr>msg_id = user_id st, msg_type = User, content = q,
                         timestamp = user_time st, msg_products = None\<rparr>;
          s2 = s1\<lparr>messages := [userMessage]\<rparr>
      in (s2, CallSearchProducts,
          \<lparr>query = q, req_session_id = None, req_price_range = None,
           features_to_add = None, features_to_remove = None\<rparr>))"

definition finishInitialSearch ::
  "stamps \<Rightarrow> js_error + SearchResponse \<Rightarrow> page_state \<Rightarrow> page_state" where
  "finishInitialSearch st outcome s2 =
     (case outcome of
        Inr response \<Rightarrow>
          let s3 = s2\<lparr>cur_products := products response,
                      sessionId := session_id response,
                      cur_suggestions := suggestions response\<rparr>;
              assistantMessage =
                \<lparr>msg_id = reply_id st, msg_type = Assistant,
                 content = ''I found '' @ nat_to_string (length (products response))
                   @ '' great options for '' @ [CHR 0x22] @ query_processed response
                   @ [CHR 0x22]
                   @ ''. Here are the top recommendations based on reviews, price, and features.'',
                 timestamp = reply_time st,
                 msg_products = Some (products response)\<rparr>;
              s4 = s3\<lparr>messages := messages s3 @ [assistantMessage]\<rparr>
          in s4\<lparr>isLoading := False\<rparr>
      | Inl error \<Rightarrow>
          let errorMessage =
                \<lparr>msg_id = reply_id st, msg_type = Assistant,
                 content = ''Sorry, I encountered an error while searching for products. Please try again.'',
                 timestamp = reply_time st, msg_products = None\<rparr>;
              s3 = s2\<lparr>messages := messages s2 @ [errorMessage]\<rparr>
          in s3\<lparr>isLoading := False\<rparr>)"

text \<open>
  \<^verbatim>\<open>handleSendMessage\<close>, lines 76 to 91 and lines 93 to 120. A string is truthy when
  it is not empty: line 89 tests \<^verbatim>\<open>sessionId\<close> so.
\<close>

definition startSendMessage ::
  "stamps \<Rightarrow> string \<Rightarrow> page_state \<Rightarrow> page_state \<times> client_op \<times> SearchRequest" where
  "startSendMessage st message s =
     (let s1 = s\<lparr>isLoading := True\<rparr>;
          userMessage = \<lparr>msg_id = user_id st, msg_type = User, content = message,
                         timestamp = user_time st, msg_products = None\<rparr>;
          s2 = s1\<lparr>messages := messages s1 @ [userMessage]\<rparr>
      in if sessionId s \<noteq> []
         then (s2, CallRefineSearch,
               \<lparr>query = message, req_session_id = Some (sessionId s),
                req_price_range = None, features_to_add = None,
                features_to_remove = None\<rparr>)
         else (s2, CallSearchProducts,
               \<lparr>query = message, req_session_id = None, req_price_range = None,
                features_to_add = None, features_to_remove = None\<rparr>))"

definition finishSendMessage ::
  "stamps \<Rightarrow> js_error + SearchResponse \<Rightarrow> page_state \<Rightarrow> page_state" where
  "finishSendMessage st outcome s2 =
     (case outcome of
        Inr response \<Rightarrow>
          let s3 = s2\<lparr>cur_products := products response,
                      sessionId := session_id response,
                      cur_suggestions := suggestions response\<rparr>;
              assistantMessage =
                \<lparr>msg_id = reply_id st, msg_type = Assistant,
                 content = ''Updated search results! I found ''
                   @ nat_to_string (length (products response))
                   @ '' products that match your refined criteria.'',
                 timestamp = reply_time st,
                 msg_products = Some (products response)\<rparr>;
              s4 = s3\<lparr>messages := messages s3 @ [assistantMessage]\<rparr>
          in s4\<lparr>isLoading := False\<rparr>
      | Inl error \<Rightarrow>
          let errorMessage =
                \<lparr>msg_id = reply_id st, msg_type = Assistant,
                 content = ''Sorry, I encountered an error. Please try rephrasing your request.'',
                 timestamp = reply_time st, msg_products = None\<rparr>;
              s3 = s2\<lparr>messages := messages s2 @ [errorMessage]\<rparr>
          in s3\<lparr>isLoading := False\<rparr>)"

text \<open>\<^verbatim>\<open>handleApplyRefinements\<close>, lines 132 to 166 and lines 168 to 194.\<close>

definition startApplyRefinements ::
  "stamps \<Rightarrow> RefinementOptions \<Rightarrow> page_state
     \<Rightarrow> page_state \<times> client_op \<times> SearchRequest" where
  "startApplyRefinements st options s =
     (let s1 = s\<lparr>refinementOptions := options, isLoading := True\<rparr>;
          refinementQuery = build_refinement_query options;
          userMessage = \<lparr>msg_id = user_id st, msg_type = User, content = refinementQuery,
                         timestamp = user_time st, msg_products = None\<rparr>;
          s2 = s1\<lparr>messages := messages s1 @ [userMessage]\<rparr>
      in (s2, CallRefineSearch,
          \<lparr>query = refinementQuery, req_session_id = Some (sessionId s),
           req_price_range = opt_price_range options,
           features_to_add = features options,
           features_to_remove = None\<rparr>))"

definition finishApplyRefinements ::
  "stamps \<Rightarrow> js_error + SearchResponse \<Rightarrow> page_state \<Rightarrow> page_state" where
  "finishApplyRefinements st outcome s2 =
     (case outcome of
        Inr response \<Rightarrow>
          let s3 = s2\<lparr>cur_products := products response,
                      cur_suggestions := suggestions response\<rparr>;
              assistantMessage =
                \<lparr>msg_id = reply_id st, msg_type = Assistant,
                 content = ''Perfect! I've refined your search based on your preferences. Here are ''
                   @ nat_to_string (length (products response))
                   @ '' updated recommendations.'',
                 timestamp = reply_time st,
                 msg_products = Some (products response)\<rparr>;
              s4 = s3\<lparr>messages := messages s3 @ [assistantMessage]\<rparr>
          in s4\<lparr>isLoading := False\<rparr>
      | Inl error \<Rightarrow>
          let errorMessage =
                \<lparr>msg_id = reply_id st, msg_type = Assistant,
                 content = ''Sorry, I had trouble refining your search. Please try again.'',
                 timestamp = reply_time st, msg_products = None\<rparr>;
              s3 = s2\<lparr>messages := messages s2 @ [errorMessage]\<rparr>
          in s3\<lparr>isLoading := False\<rparr>)"

text \<open>
  A handler that nothing interrupts: its first part, the call, and its second part on the
  page the first part left. It maps the page and the call log before it to those after it.
\<close>

fun handleInitialSearch :: "stamps \<Rightarrow> network \<Rightarrow> string \<Rightarrow> world \<Rightarrow> world" where
  "handleInitialSearch st net q (s, calls) =
     (case startInitialSearch st q s of
        (s2, cop, rq) \<Rightarrow>
          (case call_api cop net rq calls of
             (outcome, calls') \<Rightarrow> (finishInitialSearch st outcome s2, calls')))"

fun handleSendMessage :: "stamps \<Rightarrow> network \<Rightarrow> string \<Rightarrow> world \<Rightarrow> world" where
  "handleSendMessage st net message (s, calls) =
     (case startSendMessage st message s of
        (s2, cop, rq) \<Rightarrow>
          (case call_api cop net rq calls of
             (outcome, calls') \<Rightarrow> (finishSendMessage st outcome s2, calls')))"

fun handleApplyRefinements ::
  "stamps \<Rightarrow> network \<Rightarrow> RefinementOptions \<Rightarrow> world \<Rightarrow> world" where
  "handleApplyRefinements st net options (s, calls) =
     (case startApplyRefinements st options s of
        (s2, cop, rq) \<Rightarrow>
          (case call_api cop net rq calls of
             (outcome, calls') \<Rightarrow> (finishApplyRefinements st outcome s2, calls')))"

text \<open>
  What drives the page: the effect on the URL's \<^verbatim>\<open>q\<close> (lines 23 to 27) calls
  \<open>handleInitialSearch\<close> each time \<^verbatim>\<open>q\<close> changes to a string, the chat input
  and a suggestion click call \<open>handleSendMessage\<close>, the refinement panel calls
  \<open>handleApplyRefinements\<close>. \<open>dispatch\<close> is one such event handled without
  interruption, with the stamps it draws and the network it meets.
\<close>

datatype event =
    InitialSearch string
  | SendMessage string
  | ApplyRefinements RefinementOptions

type_synonym turn = "event \<times> stamps \<times> network"

fun dispatch :: "turn \<Rightarrow> world \<Rightarrow> world" where
  "dispatch (InitialSearch q, st, net) w = handleInitialSearch st net q w"
| "dispatch (SendMessage m, st, net) w = handleSendMessage st net m w"
| "dispatch (ApplyRefinements options, st, net) w = handleApplyRefinements st net options w"

text \<open>
  Only the chat form is disabled while \<^verbatim>\<open>isLoading\<close> holds (ChatInterface.tsx, lines
  34 and 139), and the suggestion buttons are hidden then. The effect on \<^verbatim>\<open>q\<close> and
  the refinement panel's handler do not test it, so an event can start a handler while
  calls of earlier handlers are in flight, and calls settle in any order. A browsing
  session is therefore a list of steps of two kinds. \<open>Start e st\<close>: the event \<open>e\<close>
  runs the first part of its handler and its call joins the calls in flight; the handler
  is the one of the latest render, so it reads the page as the step before left it.
  \<open>Settle k st net\<close>: the \<open>k\<close>-th call in flight settles with what the network
  \<open>net\<close> answers, it is logged, and the second part of its handler runs on the current
  page; when there is no \<open>k\<close>-th call in flight nothing happens. The session also
  keeps, for each logged call, the event that issued it. The steps allow more than the
  page does: they also start a chat submission while a call is in flight.
\<close>

record pending =
  p_event :: event
  p_op :: client_op
  p_request :: SearchRequest

record session =
  page :: page_state
  in_flight :: "pending list"
  origins :: "event list"
  done_calls :: call_log

datatype step =
    Start event stamps
  | Settle nat stamps network

fun start_handler ::
  "event \<Rightarrow> stamps \<Rightarrow> page_state \<Rightarrow> page_state \<times> client_op \<times> SearchRequest" where
  "start_handler (InitialSearch q) st s = startInitialSearch st q s"
| "start_handler (SendMessage m) st s = startSendMessage st m s"
| "start_handler (ApplyRefinements options) st s = startApplyRefinements st options s"

fun finish_handler ::
  "event \<Rightarrow> stamps \<Rightarrow> js_error + SearchResponse \<Rightarrow> page_state \<Rightarrow> page_state" where
  "finish_handler (InitialSearch q) st outcome s = finishInitialSearch st outcome s"
| "finish_handler (SendMessage m) st outcome s = finishSendMessage st outcome s"
| "finish_handler (ApplyRefinements options) st outcome s =
     finishApplyRefinements st outcome s"

fun perform :: "step \<Rightarrow> session \<Rightarrow> session" where
  "perform (Start e st) w =
     (case start_handler e st (page w) of
        (s2, cop, rq) \<Rightarrow>
          w\<lparr>page := s2,
            in_flight := in_flight w @ [\<lparr>p_event = e, p_op = cop, p_request = rq\<rparr>]\<rparr>)"
| "perform (Settle k st net) w =
     (if k < length (in_flight w)
      then (case call_api (p_op (in_flight w ! k)) net (p_request (in_flight w ! k))
                   (done_calls w) of
              (outcome, calls') \<Rightarrow>
                w\<lparr>page := finish_handler (p_event (in_flight w ! k)) st outcome (page w),
                  in_flight := take k (in_flight w) @ drop (Suc k) (in_flight w),
                  origins := origins w @ [p_event (in_flight w ! k)],
                  done_calls := calls'\<rparr>)
      else w)"

definition run :: "step list \<Rightarrow> session \<Rightarrow> session" where
  "run steps w = fold perform steps w"

definition initial_session :: session where
  "initial_session = \<lparr>page = initial_page, in_flight = [], origins = [], done_calls = []\<rparr>"

text \<open>
  A session in which no event starts a handler while a call is in flight: each turn is the
  start of its handler followed at once by the settling of its call.
\<close>

fun turn_steps :: "turn \<Rightarrow> step list" where
  "turn_steps (e, st, net) = [Start e st, Settle 0 st net]"

definition one_at_a_time :: "turn list \<Rightarrow> step list" where
  "one_at_a_time turns = concat (map turn_steps turns)"

declare handleInitialSearch.simps [simp del]
declare handleSendMessage.simps [simp del]
declare handleApplyRefinements.simps [simp del]
declare perform.simps [simp del]

section \<open>The refinement merger as the specification words it\<close>

text \<open>
  The specification describes the instruction string as a concatenation of three clauses in
  a fixed order, each left out when its option is absent or empty. The three clauses, after
  the specification's words, to compare with \<open>build_refinement_query\<close>:
\<close>

definition price_clause :: "price_range option \<Rightarrow> string" where
  "price_clause p =
     (case p of
        None \<Rightarrow> []
      | Some pr \<Rightarrow> '' with budget between $'' @ number_to_string (pr_min pr)
                   @ '' and $'' @ number_to_string (pr_max pr))"

definition feature_clause :: "string list option \<Rightarrow> string" where
  "feature_clause f =
     (case f of
        None \<Rightarrow> []
      | Some fs \<Rightarrow> (if fs = [] then [] else '' including features: '' @ join '', '' fs))"

definition verified_clause :: "bool option \<Rightarrow> string" where
  "verified_clause v = (if v = Some True then '' with verified reviews only'' else [])"

section \<open>Sessions as the specification words them\<close>

text \<open>
  The specification speaks of the submissions of a browsing session and of the session id
  received from the server. \<open>is_initial_search\<close> tells the URL-driven search from the
  submissions made on the page; \<open>is_start\<close> tells the steps that are submissions, and
  \<open>is_initial_start\<close> those that are URL-driven searches. \<open>latest_session_id sid h\<close>
  is the id the server returned most recently in a successful answer to an initial search
  or a chat submission, over the history \<open>h\<close> of events with the result of their calls,
  and \<open>sid\<close> when there is no such answer.
\<close>

fun is_initial_search :: "event \<Rightarrow> bool" where
  "is_initial_search (InitialSearch q) = True"
| "is_initial_search (SendMessage m) = False"
| "is_initial_search (ApplyRefinements options) = False"

fun is_start :: "step \<Rightarrow> bool" where
  "is_start (Start e st) = True"
| "is_start (Settle k st net) = False"

fun is_initial_start :: "step \<Rightarrow> bool" where
  "is_initial_start (Start e st) = is_initial_search e"
| "is_initial_start (Settle k st net) = False"

fun latest_session_id ::
  "string \<Rightarrow> (event \<times> SearchResponse axios_result) list \<Rightarrow> string" where
  "latest_session_id sid [] = sid"
| "latest_session_id sid ((ApplyRefinements options, r) # h) = latest_session_id sid h"
| "latest_session_id sid ((e, Resolved response) # h) =
     latest_session_id (session_id response) h"
| "latest_session_id sid ((e, Rejected err) # h) = latest_session_id sid h"

section \<open>Example inputs\<close>

definition example_stamps :: stamps where
  "example_stamps =
     \<lparr>user_id = ''id-1'', user_time = 1000, reply_id = ''id-2'', reply_time = 1500\<rparr>"

definition example_product :: Product where
  "example_product =
     \<lparr>title = ''Mouse'', price = ''$25'', image_url = ''m.png'', product_url = ''m.html'',
      purchases = 12, good_reviews = ''light'', bad_reviews = ''loud'', score = 1,
      reasoning = ''cheap''\<rparr>"

definition example_response :: "string \<Rightarrow> SearchResponse" where
  "example_response sid =
     \<lparr>products = [example_product], session_id = sid, query_processed = ''mouse'',
      suggestions = [''Add brand preference'']\<rparr>"

text \<open>A network that answers every POST with the response \<open>r\<close>, and a healthy /health.\<close>

definition answering :: "SearchResponse \<Rightarrow> network" where
  "answering r =
     \<lparr>post = (\<lambda>p rq. Resolved r),
      get = (\<lambda>p. Resolved (JObj [(''status'', JStr ''healthy'')]))\<rparr>"

text \<open>A network whose server answers every POST with status 500, and is unreachable by GET.\<close>

definition failing :: network where
  "failing =
     \<lparr>post = (\<lambda>p rq. Rejected (BadStatus 500 (JObj [(''code'', JStr ''E42'')]))),
      get = (\<lambda>p. Rejected NetworkError)\<rparr>"

definition example_options :: RefinementOptions where
  "example_options =
     \<lparr>opt_price_range = Some \<lparr>pr_min = 20, pr_max = 100\<rparr>,
      features = Some [''wireless''],
      verified_reviews_only = Some True\<rparr>"

text \<open>
  Turns whose server issues a new id with its second answer, and whose URL query changes at
  the end; turns in which the URL query changes from one search to another; turns of an
  initial search, a chat submission and a refinement; and steps in which a refinement is
  applied while the initial search is still in flight.
\<close>

definition rotating_turns :: "turn list" where
  "rotating_turns =
     [(SendMessage ''mouse'', example_stamps, answering (example_response ''s1'')),
      (SendMessage ''wireless ones'', example_stamps, answering (example_response ''s2'')),
      (SendMessage ''cheaper'', example_stamps, answering (example_response ''s2'')),
      (InitialSearch ''wallet'', example_stamps, answering (example_response ''s2''))]"

definition restarted_turns :: "turn list" where
  "restarted_turns =
     [(InitialSearch ''mouse'', example_stamps, answering (example_response ''s1'')),
      (InitialSearch ''wallet'', example_stamps, answering (example_response ''s1''))]"

definition plain_turns :: "turn list" where
  "plain_turns =
     [(InitialSearch ''mouse'', example_stamps, answering (example_response ''s1'')),
      (SendMessage ''wireless ones'', example_stamps, answering (example_response ''s1'')),
      (ApplyRefinements example_options, example_stamps, answering (example_response ''s1''))]"

definition overlapping_steps :: "step list" where
  "overlapping_steps =
     [Start (InitialSearch ''mouse'') example_stamps,
      Start (ApplyRefinements example_options) example_stamps,
      Settle 0 example_stamps (answering (example_response ''s1'')),
      Settle 0 example_stamps (answering (example_response ''s1''))]"

section \<open>The refinement query of the example\<close>

text \<open>
  C3. For the price bounds 20 and 100, the feature list [wireless] and no verified-reviews
  flag, the refinement query is exactly
  "Refine my search with budget between $20 and $100 including features: wireless".
\<close>

theorem refinement_query_example:
  "build_refinement_query
     \<lparr>opt_price_range = Some \<lparr>pr_min = 20, pr_max = 100\<rparr>,
      features = Some [''wireless''],
      verified_reviews_only = None\<rparr>
   = ''Refine my search with budget between $20 and $100 including features: wireless''"
  by code_simp

section \<open>The API client\<close>

lemma searchProducts_eq:
  "searchProducts net rq calls =
     ((case post net ''/search'' rq of
         Resolved d \<Rightarrow> Inr d
       | Rejected e \<Rightarrow> Inl (Error ''Failed to search products'')),
      calls @ [\<lparr>path = ''/search'', request = rq, result = post net ''/search'' rq\<rparr>])"
  by (simp add: searchProducts_def api_post_def Let_def split: axios_result.splits)

lemma refineSearch_eq:
  "refineSearch net rq calls =
     ((case post net ''/refine'' rq of
         Resolved d \<Rightarrow> Inr d
       | Rejected e \<Rightarrow> Inl (Error ''Failed to refine search'')),
      calls @ [\<lparr>path = ''/refine'', request = rq, result = post net ''/refine'' rq\<rparr>])"
  by (simp add: refineSearch_def api_post_def Let_def split: axios_result.splits)

text \<open>
  C7. Whatever makes the POST reject (no response, timeout, a status outside 2xx with any
  body), \<open>searchProducts\<close> raises the one error "Failed to search products" and
  \<open>refineSearch\<close> the one error "Failed to refine search": the two differ from each
  other, and neither depends on the rejection \<open>e\<close>, so nothing of the server's body
  reaches the caller.
\<close>

theorem api_failure_is_generic:
  "(post net ''/search'' rq = Rejected e \<longrightarrow>
      fst (searchProducts net rq calls) = Inl (Error ''Failed to search products''))
   \<and> (post net ''/refine'' rq = Rejected e \<longrightarrow>
      fst (refineSearch net rq calls) = Inl (Error ''Failed to refine search''))
   \<and> Error ''Failed to search products'' \<noteq> Error ''Failed to refine search''"
  by (simp add: searchProducts_eq refineSearch_eq)

theorem api_failure_is_generic_witness:
  "post failing ''/search'' \<lparr>query = ''mouse'', req_session_id = None, req_price_range = None,
       features_to_add = None, features_to_remove = None\<rparr>
     = Rejected (BadStatus 500 (JObj [(''code'', JStr ''E42'')]))
   \<and> post failing ''/refine'' \<lparr>query = ''mouse'', req_session_id = None, req_price_range = None,
       features_to_add = None, features_to_remove = None\<rparr>
     = Rejected (BadStatus 500 (JObj [(''code'', JStr ''E42'')]))
   \<and> fst (searchProducts failing \<lparr>query = ''mouse'', req_session_id = None,
       req_price_range = None, features_to_add = None, features_to_remove = None\<rparr> [])
     = Inl (Error ''Failed to search products'')
   \<and> fst (refineSearch failing \<lparr>query = ''mouse'', req_session_id = None,
       req_price_range = None, features_to_add = None, features_to_remove = None\<rparr> [])
     = Inl (Error ''Failed to refine search'')"
  using api_failure_is_generic [of failing
      "\<lparr>query = ''mouse'', req_session_id = None, req_price_range = None,
        features_to_add = None, features_to_remove = None\<rparr>"
      "BadStatus 500 (JObj [(''code'', JStr ''E42'')])" "[]"]
  by (simp add: failing_def)

text \<open>
  C10. \<open>healthCheck\<close> never raises. It returns true exactly when the GET resolves with an
  object whose status property is the string "healthy"; so it returns false for every other
  body, and it returns false when the GET rejects.
\<close>

theorem healthCheck_never_raises:
  "(\<exists>b. healthCheck net = Inr b)
   \<and> (healthCheck net = Inr True \<longleftrightarrow>
        (\<exists>kvs. get net ''/health'' = Resolved (JObj kvs)
               \<and> map_of kvs ''status'' = Some (JStr ''healthy'')))
   \<and> ((\<exists>e. get net ''/health'' = Rejected e) \<longrightarrow> healthCheck net = Inr False)"
proof (cases "get net ''/health''")
  case (Resolved d)
  then show ?thesis
    by (cases d) (auto simp: healthCheck_def)
next
  case (Rejected e)
  then show ?thesis
    by (auto simp: healthCheck_def)
qed

theorem healthCheck_never_raises_witness:
  "healthCheck (answering (example_response ''s1'')) = Inr True
   \<and> get failing ''/health'' = Rejected NetworkError
   \<and> healthCheck failing = Inr False"
  using healthCheck_never_raises [of "answering (example_response ''s1'')"]
    healthCheck_never_raises [of failing]
  by (simp add: answering_def failing_def)

section \<open>The refinement merger\<close>

text \<open>
  C4. For every combination of options the instruction string is the fixed opening followed
  by the price clause, then the feature clause, then the verified-reviews clause, where the
  clause of an absent or empty option is the empty string.
\<close>

theorem refinement_query_clause_order:
  "build_refinement_query options =
     ''Refine my search'' @ price_clause (opt_price_range options)
       @ feature_clause (features options)
       @ verified_clause (verified_reviews_only options)"
  by (simp add: build_refinement_query_def price_clause_def feature_clause_def
        verified_clause_def Let_def split: option.splits)

section \<open>What each handler sends\<close>

lemma handleInitialSearch_calls:
  "snd (handleInitialSearch st net q (s, calls)) =
     calls @ [\<lparr>path = ''/search'',
               request = \<lparr>query = q, req_session_id = None, req_price_range = None,
                          features_to_add = None, features_to_remove = None\<rparr>,
               result = post net ''/search''
                          \<lparr>query = q, req_session_id = None, req_price_range = None,
                           features_to_add = None, features_to_remove = None\<rparr>\<rparr>]"
  by (simp add: handleInitialSearch.simps startInitialSearch_def finishInitialSearch_def call_api_def searchProducts_eq Let_def
        split: axios_result.splits)

lemma handleSendMessage_calls:
  "snd (handleSendMessage st net message (s, calls)) =
     calls @ [if sessionId s \<noteq> []
              then \<lparr>path = ''/refine'',
                    request = \<lparr>query = message, req_session_id = Some (sessionId s),
                               req_price_range = None, features_to_add = None,
                               features_to_remove = None\<rparr>,
                    result = post net ''/refine''
                               \<lparr>query = message, req_session_id = Some (sessionId s),
                                req_price_range = None, features_to_add = None,
                                features_to_remove = None\<rparr>\<rparr>
              else \<lparr>path = ''/search'',
                    request = \<lparr>query = message, req_session_id = None,
                               req_price_range = None, features_to_add = None,
                               features_to_remove = None\<rparr>,
                    result = post net ''/search''
                               \<lparr>query = message, req_session_id = None,
                                req_price_range = None, features_to_add = None,
                                features_to_remove = None\<rparr>\<rparr>]"
  by (simp add: handleSendMessage.simps startSendMessage_def finishSendMessage_def call_api_def refineSearch_eq searchProducts_eq Let_def
        split: axios_result.splits)

lemma handleApplyRefinements_calls:
  "snd (handleApplyRefinements st net options (s, calls)) =
     calls @ [\<lparr>path = ''/refine'',
               request = \<lparr>query = build_refinement_query options,
                          req_session_id = Some (sessionId s),
                          req_price_range = opt_price_range options,
                          features_to_add = features options,
                          features_to_remove = None\<rparr>,
               result = post net ''/refine''
                          \<lparr>query = build_refinement_query options,
                           req_session_id = Some (sessionId s),
                           req_price_range = opt_price_range options,
                           features_to_add = features options,
                           features_to_remove = None\<rparr>\<rparr>]"
  by (simp add: handleApplyRefinements.simps startApplyRefinements_def finishApplyRefinements_def call_api_def refineSearch_eq Let_def
        split: axios_result.splits)

text \<open>
  C8. Applying refinement options sends one POST to /refine whose body has the query string,
  the stored session id, the options' price bounds and the options' feature list as
  \<open>features_to_add\<close>, and no \<open>features_to_remove\<close>. The request type has no field for
  the verified-reviews flag: when the flag is set, it is the query string that ends with the
  verified-reviews clause.
\<close>

theorem panel_request_fields:
  "\<exists>c. snd (handleApplyRefinements st net options (s, calls)) = calls @ [c]
       \<and> path c = ''/refine''
       \<and> request c = \<lparr>query = build_refinement_query options,
                       req_session_id = Some (sessionId s),
                       req_price_range = opt_price_range options,
                       features_to_add = features options,
                       features_to_remove = None\<rparr>
       \<and> (verified_reviews_only options = Some True \<longrightarrow>
            (\<exists>pre. query (request c) = pre @ '' with verified reviews only''))"
  by (simp add: handleApplyRefinements_calls build_refinement_query_def Let_def)

theorem panel_request_fields_witness:
  "verified_reviews_only example_options = Some True
   \<and> (\<exists>c. snd (handleApplyRefinements example_stamps failing example_options
                 (initial_page\<lparr>sessionId := ''s1''\<rparr>, [])) = [c]
          \<and> path c = ''/refine''
          \<and> request c =
              \<lparr>query = ''Refine my search with budget between $20 and $100 including features: wireless with verified reviews only'',
               req_session_id = Some ''s1'',
               req_price_range = Some \<lparr>pr_min = 20, pr_max = 100\<rparr>,
               features_to_add = Some [''wireless''],
               features_to_remove = None\<rparr>)"
proof -
  have q: "build_refinement_query example_options =
      ''Refine my search with budget between $20 and $100 including features: wireless with verified reviews only''"
    unfolding example_options_def by code_simp
  show ?thesis
    using panel_request_fields [of example_stamps failing example_options
        "initial_page\<lparr>sessionId := ''s1''\<rparr>" "[]"] q
    by (auto simp: example_options_def)
qed

text \<open>
  C9. Applying refinement options always sends its POST to /refine, with the stored session
  id as the \<open>session_id\<close> field, also when that id is still the empty string; a chat
  submission with an empty stored id sends its POST to /search, without a
  \<open>session_id\<close> field.
\<close>

theorem panel_always_refines:
  "(\<exists>c. snd (handleApplyRefinements st net options (s, calls)) = calls @ [c]
        \<and> path c = ''/refine''
        \<and> req_session_id (request c) = Some (sessionId s))
   \<and> (sessionId s = [] \<longrightarrow>
        (\<exists>c. snd (handleSendMessage st net message (s, calls)) = calls @ [c]
             \<and> path c = ''/search''
             \<and> req_session_id (request c) = None))"
  by (simp add: handleApplyRefinements_calls handleSendMessage_calls)

theorem panel_always_refines_witness:
  "sessionId initial_page = []
   \<and> (\<exists>c. snd (handleApplyRefinements example_stamps failing example_options
                 (initial_page, [])) = [c]
          \<and> path c = ''/refine'' \<and> req_session_id (request c) = Some [])
   \<and> (\<exists>c. snd (handleSendMessage example_stamps failing ''mouse'' (initial_page, [])) = [c]
          \<and> path c = ''/search'' \<and> req_session_id (request c) = None)"
  using panel_always_refines [of example_stamps failing example_options initial_page "[]"
      "''mouse''"]
  by (simp add: initial_page_def)

section \<open>Chat submission\<close>

text \<open>
  C6. For every text submitted through the chat input, the first part of the handler appends
  the user message with that text, and the handler makes exactly one call: a refine call
  carrying the stored session id when that id is not empty, a search call without a session
  id otherwise. Whatever the call gives, the transcript afterwards is the one from before,
  the user message, and one assistant message. When the call succeeds, that assistant
  message is built from the response (its product count in the text, its products attached),
  and the current product list and suggestion list are those of the response.
\<close>

theorem chat_submit_contract:
  assumes "handleSendMessage st net message (s, calls) = (s', calls')"
  shows "messages (fst (startSendMessage st message s)) = messages s @
           [\<lparr>msg_id = user_id st, msg_type = User, content = message,
             timestamp = user_time st, msg_products = None\<rparr>]
       \<and> (\<exists>c reply. calls' = calls @ [c]
            \<and> path c = (if sessionId s \<noteq> [] then ''/refine'' else ''/search'')
            \<and> request c = \<lparr>query = message,
                   req_session_id = (if sessionId s \<noteq> [] then Some (sessionId s) else None),
                   req_price_range = None, features_to_add = None,
                   features_to_remove = None\<rparr>
            \<and> result c = post net (path c) (request c)
            \<and> messages s' = messages s @
                 [\<lparr>msg_id = user_id st, msg_type = User, content = message,
                   timestamp = user_time st, msg_products = None\<rparr>,
                  reply]
            \<and> msg_type reply = Assistant
            \<and> (\<forall>response. result c = Resolved response \<longrightarrow>
                  reply = \<lparr>msg_id = reply_id st, msg_type = Assistant,
                            content = ''Updated search results! I found ''
                              @ nat_to_string (length (products response))
                              @ '' products that match your refined criteria.'',
                            timestamp = reply_time st,
                            msg_products = Some (products response)\<rparr>
                  \<and> cur_products s' = products response
                  \<and> cur_suggestions s' = suggestions response))"
proof (cases "sessionId s = []")
  case True
  show ?thesis
  proof (cases "post net ''/search'' \<lparr>query = message, req_session_id = None,
      req_price_range = None, features_to_add = None, features_to_remove = None\<rparr>")
    case (Resolved d)
    with True assms show ?thesis
      by (auto simp: handleSendMessage.simps startSendMessage_def finishSendMessage_def
            call_api_def searchProducts_eq Let_def)
  next
    case (Rejected e)
    with True assms show ?thesis
      by (auto simp: handleSendMessage.simps startSendMessage_def finishSendMessage_def
            call_api_def searchProducts_eq Let_def)
  qed
next
  case False
  show ?thesis
  proof (cases "post net ''/refine'' \<lparr>query = message, req_session_id = Some (sessionId s),
      req_price_range = None, features_to_add = None, features_to_remove = None\<rparr>")
    case (Resolved d)
    with False assms show ?thesis
      by (auto simp: handleSendMessage.simps startSendMessage_def finishSendMessage_def
            call_api_def refineSearch_eq Let_def)
  next
    case (Rejected e)
    with False assms show ?thesis
      by (auto simp: handleSendMessage.simps startSendMessage_def finishSendMessage_def
            call_api_def refineSearch_eq Let_def)
  qed
qed

theorem chat_submit_contract_witness:
  "(\<exists>c. snd (handleSendMessage example_stamps (answering (example_response ''s1''))
               ''wireless ones'' (initial_page\<lparr>sessionId := ''s1''\<rparr>, [])) = [c]
        \<and> path c = ''/refine''
        \<and> req_session_id (request c) = Some ''s1''
        \<and> result c = Resolved (example_response ''s1''))
   \<and> map content (messages (fst (handleSendMessage example_stamps
          (answering (example_response ''s1'')) ''wireless ones''
          (initial_page\<lparr>sessionId := ''s1''\<rparr>, []))))
      = [''wireless ones'',
         ''Updated search results! I found 1 products that match your refined criteria.'']
   \<and> cur_products (fst (handleSendMessage example_stamps
          (answering (example_response ''s1'')) ''wireless ones''
          (initial_page\<lparr>sessionId := ''s1''\<rparr>, []))) = [example_product]
   \<and> cur_suggestions (fst (handleSendMessage example_stamps
          (answering (example_response ''s1'')) ''wireless ones''
          (initial_page\<lparr>sessionId := ''s1''\<rparr>, []))) = [''Add brand preference'']
   \<and> map msg_type (messages (fst (handleSendMessage example_stamps failing ''mouse''
          (initial_page, [])))) = [User, Assistant]
   \<and> content (hd (messages (fst (handleSendMessage example_stamps failing ''mouse''
          (initial_page, []))))) = ''mouse''"
proof -
  have n: "nat_to_string (Suc 0) = ''1''"
    by code_simp
  have ok: "(\<exists>c. snd (handleSendMessage example_stamps (answering (example_response ''s1''))
               ''wireless ones'' (initial_page\<lparr>sessionId := ''s1''\<rparr>, [])) = [c]
        \<and> path c = ''/refine''
        \<and> req_session_id (request c) = Some ''s1''
        \<and> result c = Resolved (example_response ''s1''))
   \<and> map content (messages (fst (handleSendMessage example_stamps
          (answering (example_response ''s1'')) ''wireless ones''
          (initial_page\<lparr>sessionId := ''s1''\<rparr>, []))))
      = [''wireless ones'',
         ''Updated search results! I found 1 products that match your refined criteria.'']
   \<and> cur_products (fst (handleSendMessage example_stamps
          (answering (example_response ''s1'')) ''wireless ones''
          (initial_page\<lparr>sessionId := ''s1''\<rparr>, []))) = [example_product]
   \<and> cur_suggestions (fst (handleSendMessage example_stamps
          (answering (example_response ''s1'')) ''wireless ones''
          (initial_page\<lparr>sessionId := ''s1''\<rparr>, []))) = [''Add brand preference'']"
    using chat_submit_contract [where st = example_stamps
        and net = "answering (example_response ''s1'')" and message = "''wireless ones''"
        and s = "initial_page\<lparr>sessionId := ''s1''\<rparr>" and calls = "[]",
        OF surjective_pairing] n
    by (auto simp: answering_def example_response_def initial_page_def)
  have bad: "map msg_type (messages (fst (handleSendMessage example_stamps failing ''mouse''
          (initial_page, [])))) = [User, Assistant]
   \<and> content (hd (messages (fst (handleSendMessage example_stamps failing ''mouse''
          (initial_page, []))))) = ''mouse''"
    using chat_submit_contract [where st = example_stamps and net = failing
        and message = "''mouse''" and s = initial_page and calls = "[]",
        OF surjective_pairing]
    by (auto simp: initial_page_def)
  from ok bad show ?thesis
    by simp
qed

section \<open>A call that fails\<close>

text \<open>
  C2. When the call of a submission is rejected, whichever handler made it, the product list
  is the one from before, the call was made once (the log has grown by one entry), and the
  transcript holds the user message followed by exactly one assistant apology, which has no
  products attached. The chat and panel handlers append the two messages to the transcript
  from before; the initial search starts the transcript with them.
\<close>

theorem failed_call_keeps_products:
  assumes "dispatch (e, st, net) (s, calls) = (s', calls')"
      and "result (last calls') = Rejected err"
  shows "cur_products s' = cur_products s
       \<and> length calls' = length calls + 1
       \<and> messages s' =
           (case e of InitialSearch q \<Rightarrow> [] | SendMessage m \<Rightarrow> messages s
                    | ApplyRefinements options \<Rightarrow> messages s) @
           [\<lparr>msg_id = user_id st, msg_type = User,
             content = (case e of InitialSearch q \<Rightarrow> q | SendMessage m \<Rightarrow> m
                        | ApplyRefinements options \<Rightarrow> build_refinement_query options),
             timestamp = user_time st, msg_products = None\<rparr>,
            \<lparr>msg_id = reply_id st, msg_type = Assistant,
             content = (case e of
                 InitialSearch q \<Rightarrow>
                   ''Sorry, I encountered an error while searching for products. Please try again.''
               | SendMessage m \<Rightarrow>
                   ''Sorry, I encountered an error. Please try rephrasing your request.''
               | ApplyRefinements options \<Rightarrow>
                   ''Sorry, I had trouble refining your search. Please try again.''),
             timestamp = reply_time st, msg_products = None\<rparr>]"
proof (cases e)
  case (InitialSearch q)
  with assms show ?thesis
    by (auto simp: handleInitialSearch.simps startInitialSearch_def finishInitialSearch_def call_api_def searchProducts_eq Let_def
          split: axios_result.splits)
next
  case (SendMessage m)
  with assms show ?thesis
    by (auto simp: handleSendMessage.simps startSendMessage_def finishSendMessage_def call_api_def refineSearch_eq searchProducts_eq Let_def
          split: axios_result.splits if_splits)
next
  case (ApplyRefinements options)
  with assms show ?thesis
    by (auto simp: handleApplyRefinements.simps startApplyRefinements_def finishApplyRefinements_def call_api_def refineSearch_eq Let_def
          split: axios_result.splits)
qed

theorem failed_call_keeps_products_witness:
  "result (last (snd (dispatch (SendMessage ''wireless ones'', example_stamps, failing)
       (initial_page\<lparr>cur_products := [example_product], sessionId := ''s1''\<rparr>, []))))
     = Rejected (BadStatus 500 (JObj [(''code'', JStr ''E42'')]))
   \<and> cur_products (fst (dispatch (SendMessage ''wireless ones'', example_stamps, failing)
       (initial_page\<lparr>cur_products := [example_product], sessionId := ''s1''\<rparr>, [])))
     = [example_product]
   \<and> length (snd (dispatch (SendMessage ''wireless ones'', example_stamps, failing)
       (initial_page\<lparr>cur_products := [example_product], sessionId := ''s1''\<rparr>, []))) = 1
   \<and> map content (messages (fst (dispatch (SendMessage ''wireless ones'', example_stamps, failing)
       (initial_page\<lparr>cur_products := [example_product], sessionId := ''s1''\<rparr>, []))))
     = [''wireless ones'',
        ''Sorry, I encountered an error. Please try rephrasing your request.'']"
proof -
  have r: "result (last (snd (dispatch (SendMessage ''wireless ones'', example_stamps, failing)
       (initial_page\<lparr>cur_products := [example_product], sessionId := ''s1''\<rparr>, []))))
     = Rejected (BadStatus 500 (JObj [(''code'', JStr ''E42'')]))"
    by (simp add: handleSendMessage_calls failing_def)
  show ?thesis
    using failed_call_keeps_products [OF surjective_pairing r] r
    by (simp add: initial_page_def)
qed

section \<open>Sessions\<close>

lemma run_Nil: "run [] w = w"
  by (simp add: run_def)

lemma run_Cons: "run (x # steps) w = run steps (perform x w)"
  by (simp add: run_def)

lemma latest_session_id_Cons:
  "latest_session_id sid (x # h) = latest_session_id (latest_session_id sid [x]) h"
proof (cases x)
  case (Pair e r)
  then show ?thesis
    by (cases e; cases r) simp_all
qed

lemma latest_session_id_append:
  "latest_session_id sid (h1 @ h2) = latest_session_id (latest_session_id sid h1) h2"
proof (induction h1 arbitrary: sid)
  case Nil
  then show ?case by simp
next
  case (Cons x h1)
  have "latest_session_id sid ((x # h1) @ h2) =
      latest_session_id (latest_session_id sid [x]) (h1 @ h2)"
    using latest_session_id_Cons [of sid x "h1 @ h2"] by simp
  also have "\<dots> = latest_session_id (latest_session_id (latest_session_id sid [x]) h1) h2"
    by (rule Cons.IH)
  also have "latest_session_id (latest_session_id sid [x]) h1 = latest_session_id sid (x # h1)"
    by (rule latest_session_id_Cons [symmetric])
  finally show ?case .
qed

lemma latest_session_id_received:
  "latest_session_id sid h = sid
   \<or> (\<exists>e r. (e, Resolved r) \<in> set h \<and> latest_session_id sid h = session_id r)"
proof (induction h arbitrary: sid)
  case Nil
  then show ?case by simp
next
  case (Cons x h)
  obtain e r where x: "x = (e, r)"
    by (cases x) auto
  have step: "latest_session_id sid (x # h) = latest_session_id (latest_session_id sid [x]) h"
    by (rule latest_session_id_Cons)
  have one: "latest_session_id sid [x] = sid
      \<or> (\<exists>response. r = Resolved response \<and> latest_session_id sid [x] = session_id response)"
    using x by (cases e; cases r) simp_all
  from Cons.IH [of "latest_session_id sid [x]"] show ?case
  proof
    assume a: "latest_session_id (latest_session_id sid [x]) h = latest_session_id sid [x]"
    from one show ?thesis
    proof
      assume "latest_session_id sid [x] = sid"
      with a step show ?thesis by simp
    next
      assume "\<exists>response. r = Resolved response
          \<and> latest_session_id sid [x] = session_id response"
      then obtain response where "r = Resolved response"
        and "latest_session_id sid [x] = session_id response"
        by blast
      with a step x have "(e, Resolved response) \<in> set (x # h)
          \<and> latest_session_id sid (x # h) = session_id response"
        by simp
      then show ?thesis by blast
    qed
  next
    assume "\<exists>e' r'. (e', Resolved r') \<in> set h
        \<and> latest_session_id (latest_session_id sid [x]) h = session_id r'"
    then obtain e' r' where "(e', Resolved r') \<in> set h"
      and "latest_session_id (latest_session_id sid [x]) h = session_id r'"
      by blast
    with step have "(e', Resolved r') \<in> set (x # h)
        \<and> latest_session_id sid (x # h) = session_id r'"
      by simp
    then show ?thesis by blast
  qed
qed

lemma role_not_User: "(msg_type m \<noteq> User) = (msg_type m = Assistant)"
  by (cases "msg_type m") simp_all

lemma run_one_at_a_time_Cons:
  "run (one_at_a_time (t # turns)) w = run (one_at_a_time turns) (run (turn_steps t) w)"
  by (simp add: one_at_a_time_def run_def)

lemmas eval_simps = run_def one_at_a_time_def perform.simps
  startInitialSearch_def finishInitialSearch_def startSendMessage_def finishSendMessage_def
  startApplyRefinements_def finishApplyRefinements_def call_api_def
  searchProducts_eq refineSearch_eq answering_def example_response_def
  initial_page_def initial_session_def Let_def

section \<open>The session id\<close>

text \<open>
  C1, as stated, fails. In the session of \<open>rotating_turns\<close> the first answer carries
  the id s1 and the second answer the id s2: the third call then carries s2 and not s1, and
  the fourth call, an initial search, carries no session id at all.
\<close>

theorem session_id_counterexample:
  "result (done_calls (run (one_at_a_time rotating_turns) initial_session) ! 0)
     = Resolved (example_response ''s1'')
   \<and> session_id (example_response ''s1'') = ''s1''
   \<and> req_session_id (request (done_calls (run (one_at_a_time rotating_turns) initial_session) ! 2))
       = Some ''s2''
   \<and> req_session_id (request (done_calls (run (one_at_a_time rotating_turns) initial_session) ! 3))
       = None"
  by (simp add: rotating_turns_def eval_simps)

text \<open>
  C1, amended. After any steps from the freshly loaded page, whatever their interleaving,
  the stored session id is the id returned by the most recent successful answer to an
  initial search or a chat submission, and the empty string when there was none; it is
  empty or the id of some answer in the log, character for character. The next submission
  issues one call, logged when it settles with the request it was issued with: an initial
  search is a POST to /search without a session id; a chat submission is a POST to /refine
  carrying exactly the stored id when that id is not empty, and a POST to /search without a
  session id when it is empty; a refinement from the panel is a POST to /refine carrying
  exactly the stored id.
\<close>

theorem session_id_is_latest_received:
  assumes "run steps initial_session = w"
  shows "sessionId (page w) =
           latest_session_id [] (zip (origins w) (map result (done_calls w)))
       \<and> (sessionId (page w) = []
          \<or> (\<exists>c \<in> set (done_calls w). \<exists>r. result c = Resolved r
                 \<and> sessionId (page w) = session_id r))
       \<and> (\<exists>p c. in_flight (perform (Start e st) w) = in_flight w @ [p]
            \<and> p_event p = e
            \<and> done_calls (perform (Settle (length (in_flight w)) st' net)
                 (perform (Start e st) w)) = done_calls w @ [c]
            \<and> request c = p_request p
            \<and> (case e of
                 InitialSearch q \<Rightarrow>
                   path c = ''/search''
                   \<and> request c = \<lparr>query = q, req_session_id = None, req_price_range = None,
                                   features_to_add = None, features_to_remove = None\<rparr>
               | SendMessage m \<Rightarrow>
                   (if sessionId (page w) = []
                    then path c = ''/search''
                       \<and> request c = \<lparr>query = m, req_session_id = None,
                                       req_price_range = None, features_to_add = None,
                                       features_to_remove = None\<rparr>
                    else path c = ''/refine''
                       \<and> request c = \<lparr>query = m, req_session_id = Some (sessionId (page w)),
                                       req_price_range = None, features_to_add = None,
                                       features_to_remove = None\<rparr>)
               | ApplyRefinements options \<Rightarrow>
                   path c = ''/refine''
                   \<and> request c = \<lparr>query = build_refinement_query options,
                                   req_session_id = Some (sessionId (page w)),
                                   req_price_range = opt_price_range options,
                                   features_to_add = features options,
                                   features_to_remove = None\<rparr>))"
proof -
  have start_keeps: "sessionId (page (perform (Start ev st0) v)) = sessionId (page v)
       \<and> origins (perform (Start ev st0) v) = origins v
       \<and> done_calls (perform (Start ev st0) v) = done_calls v" for ev st0 v
    by (cases ev)
      (simp_all add: perform.simps startInitialSearch_def startSendMessage_def
        startApplyRefinements_def Let_def)
  have settle_stores: "\<exists>c. done_calls (perform (Settle k st0 net0) v) = done_calls v @ [c]
         \<and> origins (perform (Settle k st0 net0) v) = origins v @ [p_event (in_flight v ! k)]
         \<and> sessionId (page (perform (Settle k st0 net0) v)) =
             latest_session_id (sessionId (page v)) [(p_event (in_flight v ! k), result c)]"
    if "k < length (in_flight v)" for k st0 net0 v
    using that
    by (cases "p_event (in_flight v ! k)"; cases "p_op (in_flight v ! k)")
      (auto simp: perform.simps call_api_def searchProducts_eq refineSearch_eq
        finishInitialSearch_def finishSendMessage_def finishApplyRefinements_def Let_def
        split: axios_result.splits)
  have one: "\<exists>os cs. origins (perform x v) = origins v @ os
       \<and> done_calls (perform x v) = done_calls v @ cs
       \<and> length os = length cs
       \<and> sessionId (page (perform x v)) =
           latest_session_id (sessionId (page v)) (zip os (map result cs))" for x v
  proof (cases x)
    case (Start ev st0)
    with start_keeps [of ev st0 v] show ?thesis
      by (intro exI [of _ "[]"]) simp
  next
    case (Settle k st0 net0)
    show ?thesis
    proof (cases "k < length (in_flight v)")
      case True
      from settle_stores [OF True, of st0 net0] obtain c where
        "done_calls (perform (Settle k st0 net0) v) = done_calls v @ [c]"
        "origins (perform (Settle k st0 net0) v) = origins v @ [p_event (in_flight v ! k)]"
        "sessionId (page (perform (Settle k st0 net0) v)) =
           latest_session_id (sessionId (page v)) [(p_event (in_flight v ! k), result c)]"
        by blast
      with Settle show ?thesis
        by (intro exI [of _ "[p_event (in_flight v ! k)]"] exI [of _ "[c]"]) simp
    next
      case False
      with Settle show ?thesis
        by (intro exI [of _ "[]"]) (simp add: perform.simps)
    qed
  qed
  have inv: "\<exists>os cs. origins (run xs v) = origins v @ os
       \<and> done_calls (run xs v) = done_calls v @ cs
       \<and> length os = length cs
       \<and> sessionId (page (run xs v)) =
           latest_session_id (sessionId (page v)) (zip os (map result cs))" for xs v
  proof (induction xs arbitrary: v)
    case Nil
    show ?case
      by (intro exI [of _ "[]"]) (simp add: run_Nil)
  next
    case (Cons x xs)
    obtain os1 cs1 where first:
      "origins (perform x v) = origins v @ os1"
      "done_calls (perform x v) = done_calls v @ cs1"
      "length os1 = length cs1"
      "sessionId (page (perform x v)) =
         latest_session_id (sessionId (page v)) (zip os1 (map result cs1))"
      using one [of x v] by blast
    obtain os2 cs2 where rest:
      "origins (run xs (perform x v)) = origins (perform x v) @ os2"
      "done_calls (run xs (perform x v)) = done_calls (perform x v) @ cs2"
      "length os2 = length cs2"
      "sessionId (page (run xs (perform x v))) =
         latest_session_id (sessionId (page (perform x v))) (zip os2 (map result cs2))"
      using Cons.IH [of "perform x v"] by blast
    have z: "zip (os1 @ os2) (map result (cs1 @ cs2)) =
        zip os1 (map result cs1) @ zip os2 (map result cs2)"
      using first(3) by simp
    have "sessionId (page (run (x # xs) v)) =
        latest_session_id (sessionId (page v)) (zip (os1 @ os2) (map result (cs1 @ cs2)))"
      by (simp only: run_Cons rest(4) first(4) z latest_session_id_append)
    with first(1-3) rest(1-3) show ?case
      by (intro exI [of _ "os1 @ os2"] exI [of _ "cs1 @ cs2"]) (simp add: run_Cons)
  qed
  have latest: "sessionId (page w) =
      latest_session_id [] (zip (origins w) (map result (done_calls w)))"
    using inv [of steps initial_session] assms
    by (auto simp: initial_session_def initial_page_def)
  have received: "sessionId (page w) = []
      \<or> (\<exists>c \<in> set (done_calls w). \<exists>r. result c = Resolved r
             \<and> sessionId (page w) = session_id r)"
    using latest_session_id_received [of "[]" "zip (origins w) (map result (done_calls w))"]
  proof (elim disjE)
    assume "latest_session_id [] (zip (origins w) (map result (done_calls w))) = []"
    with latest show ?thesis by simp
  next
    assume "\<exists>e r. (e, Resolved r) \<in> set (zip (origins w) (map result (done_calls w)))
        \<and> latest_session_id [] (zip (origins w) (map result (done_calls w))) = session_id r"
    then obtain e0 r where
      in_h: "(e0, Resolved r) \<in> set (zip (origins w) (map result (done_calls w)))"
      and eq: "latest_session_id [] (zip (origins w) (map result (done_calls w)))
          = session_id r"
      by blast
    from in_h have "Resolved r \<in> set (map result (done_calls w))"
      by (rule set_zip_rightD)
    then obtain c where "c \<in> set (done_calls w)" "result c = Resolved r"
      by auto
    with latest eq show ?thesis by auto
  qed
  have call: "\<exists>p c. in_flight (perform (Start e st) w) = in_flight w @ [p]
            \<and> p_event p = e
            \<and> done_calls (perform (Settle (length (in_flight w)) st' net)
                 (perform (Start e st) w)) = done_calls w @ [c]
            \<and> request c = p_request p
            \<and> (case e of
                 InitialSearch q \<Rightarrow>
                   path c = ''/search''
                   \<and> request c = \<lparr>query = q, req_session_id = None, req_price_range = None,
                                   features_to_add = None, features_to_remove = None\<rparr>
               | SendMessage m \<Rightarrow>
                   (if sessionId (page w) = []
                    then path c = ''/search''
                       \<and> request c = \<lparr>query = m, req_session_id = None,
                                       req_price_range = None, features_to_add = None,
                                       features_to_remove = None\<rparr>
                    else path c = ''/refine''
                       \<and> request c = \<lparr>query = m, req_session_id = Some (sessionId (page w)),
                                       req_price_range = None, features_to_add = None,
                                       features_to_remove = None\<rparr>)
               | ApplyRefinements options \<Rightarrow>
                   path c = ''/refine''
                   \<and> request c = \<lparr>query = build_refinement_query options,
                                   req_session_id = Some (sessionId (page w)),
                                   req_price_range = opt_price_range options,
                                   features_to_add = features options,
                                   features_to_remove = None\<rparr>)"
    by (cases e)
      (simp_all add: perform.simps startInitialSearch_def startSendMessage_def
        startApplyRefinements_def call_api_def searchProducts_eq refineSearch_eq Let_def
        split: axios_result.splits)
  from latest received call show ?thesis
    by (intro conjI)
qed

theorem session_id_is_latest_received_witness:
  "sessionId (page (run (one_at_a_time (take 2 rotating_turns)) initial_session)) = ''s2''
   \<and> (\<exists>p c. in_flight (perform (Start (SendMessage ''cheaper'') example_stamps)
                 (run (one_at_a_time (take 2 rotating_turns)) initial_session))
               = in_flight (run (one_at_a_time (take 2 rotating_turns)) initial_session) @ [p]
            \<and> done_calls (perform (Settle (length (in_flight
                   (run (one_at_a_time (take 2 rotating_turns)) initial_session)))
                 example_stamps (answering (example_response ''s2'')))
                 (perform (Start (SendMessage ''cheaper'') example_stamps)
                   (run (one_at_a_time (take 2 rotating_turns)) initial_session)))
               = done_calls (run (one_at_a_time (take 2 rotating_turns)) initial_session) @ [c]
            \<and> request c = p_request p
            \<and> path c = ''/refine''
            \<and> req_session_id (request c) = Some ''s2'')"
proof -
  let ?w = "run (one_at_a_time (take 2 rotating_turns)) initial_session"
  have sid: "sessionId (page ?w) = ''s2''"
    by (simp add: rotating_turns_def eval_simps)
  note th = session_id_is_latest_received [OF refl,
      of "one_at_a_time (take 2 rotating_turns)" "SendMessage ''cheaper''" example_stamps
         example_stamps "answering (example_response ''s2'')"]
  note third = th [THEN conjunct2, THEN conjunct2]
  from third sid
  have "\<exists>p c. in_flight (perform (Start (SendMessage ''cheaper'') example_stamps) ?w)
           = in_flight ?w @ [p]
       \<and> done_calls (perform (Settle (length (in_flight ?w)) example_stamps
              (answering (example_response ''s2'')))
            (perform (Start (SendMessage ''cheaper'') example_stamps) ?w))
           = done_calls ?w @ [c]
       \<and> request c = p_request p
       \<and> path c = ''/refine''
       \<and> req_session_id (request c) = Some ''s2''"
    by (auto dest: arg_cong [where f = req_session_id])
  with sid show ?thesis
    by blast
qed

section \<open>The transcript\<close>

text \<open>
  C5, as stated, fails. In the session of \<open>restarted_turns\<close> both calls succeed, and
  after these two submissions the transcript has two messages, not four: the second initial
  search replaced the transcript. In \<open>overlapping_steps\<close> both calls succeed as well,
  and the transcript is two user messages followed by two assistant messages.
\<close>

theorem transcript_length_counterexample:
  "map result (done_calls (run (one_at_a_time restarted_turns) initial_session)) =
     [Resolved (example_response ''s1''), Resolved (example_response ''s1'')]
   \<and> length restarted_turns = 2
   \<and> length (messages (page (run (one_at_a_time restarted_turns) initial_session))) = 2
   \<and> map result (done_calls (run overlapping_steps initial_session)) =
     [Resolved (example_response ''s1''), Resolved (example_response ''s1'')]
   \<and> map msg_type (messages (page (run overlapping_steps initial_session))) =
     [User, User, Assistant, Assistant]"
  by (simp add: restarted_turns_def overlapping_steps_def eval_simps)

text \<open>
  C5, amended. Take N submissions from the freshly loaded page, with an initial search as
  the first step only. Once every call has settled, the transcript has exactly 2N messages,
  N of the user and N of the assistant, whatever the interleaving. When moreover each
  submission is made after the call of the one before has settled, and every call succeeds,
  the transcript is, turn by turn, a user message without products followed by an assistant
  message with the products of that turn's response attached.
\<close>

theorem transcript_two_per_turn:
  "(run steps initial_session = w \<and> in_flight w = []
      \<and> (\<forall>x \<in> set (tl steps). \<not> is_initial_start x) \<longrightarrow>
        length (messages (page w)) = 2 * length (filter is_start steps)
      \<and> length (filter (\<lambda>m. msg_type m = User) (messages (page w)))
          = length (filter is_start steps)
      \<and> length (filter (\<lambda>m. msg_type m = Assistant) (messages (page w)))
          = length (filter is_start steps))
   \<and> (run (one_at_a_time turns) initial_session = w'
      \<and> (\<forall>t \<in> set (tl turns). \<not> is_initial_search (fst t))
      \<and> map result (done_calls w') = map Resolved rs \<longrightarrow>
        length (messages (page w')) = 2 * length turns
      \<and> map (\<lambda>m. (msg_type m, msg_products m)) (messages (page w'))
          = concat (map (\<lambda>response. [(User, None), (Assistant, Some (products response))]) rs))"
proof -
  have start_appends: "\<exists>u p. messages (page (perform (Start ev st0) v)) =
          (if is_initial_search ev then [] else messages (page v)) @ [u]
       \<and> msg_type u = User \<and> msg_products u = None
       \<and> in_flight (perform (Start ev st0) v) = in_flight v @ [p]
       \<and> done_calls (perform (Start ev st0) v) = done_calls v" for ev st0 v
    by (cases ev)
      (simp_all add: perform.simps startInitialSearch_def startSendMessage_def
        startApplyRefinements_def Let_def)
  have settle_appends: "\<exists>c a. done_calls (perform (Settle k st0 net0) v) = done_calls v @ [c]
       \<and> in_flight (perform (Settle k st0 net0) v) =
           take k (in_flight v) @ drop (Suc k) (in_flight v)
       \<and> messages (page (perform (Settle k st0 net0) v)) = messages (page v) @ [a]
       \<and> msg_type a = Assistant
       \<and> msg_products a = (case result c of
             Resolved response \<Rightarrow> Some (products response) | Rejected err \<Rightarrow> None)"
    if "k < length (in_flight v)" for k st0 net0 v
    using that
    by (cases "p_event (in_flight v ! k)"; cases "p_op (in_flight v ! k)")
      (auto simp: perform.simps call_api_def searchProducts_eq refineSearch_eq
        finishInitialSearch_def finishSendMessage_def finishApplyRefinements_def Let_def
        split: axios_result.splits)
  have counts: "length (messages (page (perform x v))) + length (in_flight (perform x v)) =
           length (messages (page v)) + length (in_flight v) + (if is_start x then 2 else 0)
       \<and> length (filter (\<lambda>m. msg_type m = User) (messages (page (perform x v)))) =
           length (filter (\<lambda>m. msg_type m = User) (messages (page v)))
             + (if is_start x then 1 else 0)"
    if "\<not> is_initial_start x \<or> messages (page v) = []" for x v
  proof (cases x)
    case (Start ev st0)
    obtain u p where u: "messages (page (perform (Start ev st0) v)) =
          (if is_initial_search ev then [] else messages (page v)) @ [u]"
        "msg_type u = User"
        "in_flight (perform (Start ev st0) v) = in_flight v @ [p]"
      using start_appends [of ev st0 v] by blast
    from that Start have "messages (page v) = [] \<or> \<not> is_initial_search ev"
      by auto
    with u Start show ?thesis
      by auto
  next
    case (Settle k st0 net0)
    show ?thesis
    proof (cases "k < length (in_flight v)")
      case True
      from settle_appends [OF True, of st0 net0] obtain a where
        "in_flight (perform (Settle k st0 net0) v) =
             take k (in_flight v) @ drop (Suc k) (in_flight v)"
        "messages (page (perform (Settle k st0 net0) v)) = messages (page v) @ [a]"
        "msg_type a = Assistant"
        by blast
      with Settle True show ?thesis
        by simp
    next
      case False
      with Settle show ?thesis
        by (simp add: perform.simps)
    qed
  qed
  have run_counts: "length (messages (page (run xs v))) + length (in_flight (run xs v)) =
       length (messages (page v)) + length (in_flight v) + 2 * length (filter is_start xs)
     \<and> length (filter (\<lambda>m. msg_type m = User) (messages (page (run xs v)))) =
         length (filter (\<lambda>m. msg_type m = User) (messages (page v)))
           + length (filter is_start xs)"
    if "\<forall>x \<in> set xs. \<not> is_initial_start x" for xs v
    using that
  proof (induction xs arbitrary: v)
    case Nil
    then show ?case by (simp add: run_Nil)
  next
    case (Cons x xs)
    from Cons.prems have x: "\<not> is_initial_start x \<or> messages (page v) = []"
      and rest: "\<forall>y \<in> set xs. \<not> is_initial_start y"
      by simp_all
    from counts [OF x] Cons.IH [OF rest, of "perform x v"] show ?case
      by (simp add: run_Cons)
  qed
  have fresh: "messages (page initial_session) = []" "in_flight initial_session = []"
      "done_calls initial_session = []"
    by (simp_all add: initial_session_def initial_page_def)
  have part1: "run steps initial_session = w \<and> in_flight w = []
      \<and> (\<forall>x \<in> set (tl steps). \<not> is_initial_start x) \<longrightarrow>
        length (messages (page w)) = 2 * length (filter is_start steps)
      \<and> length (filter (\<lambda>m. msg_type m = User) (messages (page w)))
          = length (filter is_start steps)
      \<and> length (filter (\<lambda>m. msg_type m = Assistant) (messages (page w)))
          = length (filter is_start steps)"
  proof (intro impI)
    assume a: "run steps initial_session = w \<and> in_flight w = []
      \<and> (\<forall>x \<in> set (tl steps). \<not> is_initial_start x)"
    have both: "length (messages (page w)) + length (in_flight w)
          = 2 * length (filter is_start steps)
        \<and> length (filter (\<lambda>m. msg_type m = User) (messages (page w)))
          = length (filter is_start steps)"
    proof (cases steps)
      case Nil
      with a fresh show ?thesis
        by (auto simp: run_Nil)
    next
      case (Cons x rest)
      from fresh(1) have "\<not> is_initial_start x \<or> messages (page initial_session) = []"
        by simp
      from counts [OF this] fresh
      have first: "length (messages (page (perform x initial_session)))
            + length (in_flight (perform x initial_session)) = (if is_start x then 2 else 0)"
          "length (filter (\<lambda>m. msg_type m = User)
              (messages (page (perform x initial_session))))
            = (if is_start x then 1 else 0)"
        by simp_all
      from a Cons have "\<forall>y \<in> set rest. \<not> is_initial_start y"
        by simp
      from run_counts [OF this, of "perform x initial_session"] first Cons a show ?thesis
        by (auto simp: run_Cons)
    qed
    with a have len: "length (messages (page w)) = 2 * length (filter is_start steps)"
      and usr: "length (filter (\<lambda>m. msg_type m = User) (messages (page w)))
            = length (filter is_start steps)"
      by simp_all
    have "length (filter (\<lambda>m. msg_type m = User) (messages (page w)))
        + length (filter (\<lambda>m. msg_type m = Assistant) (messages (page w)))
        = length (messages (page w))"
      using sum_length_filter_compl [of "\<lambda>m. msg_type m = User" "messages (page w)"]
      by (simp add: role_not_User)
    with len usr show "length (messages (page w)) = 2 * length (filter is_start steps)
      \<and> length (filter (\<lambda>m. msg_type m = User) (messages (page w)))
          = length (filter is_start steps)
      \<and> length (filter (\<lambda>m. msg_type m = Assistant) (messages (page w)))
          = length (filter is_start steps)"
      by simp
  qed
  have turn: "in_flight (run (turn_steps (ev, st0, net0)) v) = []
       \<and> (\<exists>c u a. done_calls (run (turn_steps (ev, st0, net0)) v) = done_calls v @ [c]
            \<and> messages (page (run (turn_steps (ev, st0, net0)) v)) =
                (if is_initial_search ev then [] else messages (page v)) @ [u, a]
            \<and> msg_type u = User \<and> msg_products u = None
            \<and> msg_type a = Assistant
            \<and> msg_products a = (case result c of
                  Resolved response \<Rightarrow> Some (products response) | Rejected err \<Rightarrow> None))"
    if "in_flight v = []" for ev st0 net0 v
  proof -
    let ?v1 = "perform (Start ev st0) v"
    obtain u p where u: "messages (page ?v1) =
          (if is_initial_search ev then [] else messages (page v)) @ [u]"
        "msg_type u = User" "msg_products u = None"
        "in_flight ?v1 = in_flight v @ [p]" "done_calls ?v1 = done_calls v"
      using start_appends [of ev st0 v] by blast
    from u(4) that have k: "0 < length (in_flight ?v1)" and l: "length (in_flight ?v1) = 1"
      by simp_all
    from settle_appends [OF k, of st0 net0] obtain c a where ca:
      "done_calls (perform (Settle 0 st0 net0) ?v1) = done_calls ?v1 @ [c]"
      "in_flight (perform (Settle 0 st0 net0) ?v1) =
         take 0 (in_flight ?v1) @ drop (Suc 0) (in_flight ?v1)"
      "messages (page (perform (Settle 0 st0 net0) ?v1)) = messages (page ?v1) @ [a]"
      "msg_type a = Assistant"
      "msg_products a = (case result c of
          Resolved response \<Rightarrow> Some (products response) | Rejected err \<Rightarrow> None)"
      by blast
    have r: "run (turn_steps (ev, st0, net0)) v = perform (Settle 0 st0 net0) ?v1"
      by (simp add: run_Cons run_Nil)
    from ca(2) l have "in_flight (perform (Settle 0 st0 net0) ?v1) = []"
      by simp
    with r ca(1,3,4,5) u(1,2,3,5) show ?thesis
      by (auto intro!: exI [of _ c] exI [of _ u] exI [of _ a])
  qed
  have seq: "in_flight (run (one_at_a_time ts) v) = []
     \<and> (\<exists>cs. done_calls (run (one_at_a_time ts) v) = done_calls v @ cs
          \<and> length cs = length ts
          \<and> map (\<lambda>m. (msg_type m, msg_products m)) (messages (page (run (one_at_a_time ts) v)))
              = map (\<lambda>m. (msg_type m, msg_products m)) (messages (page v))
                @ concat (map (\<lambda>c. [(User, None),
                      (Assistant, case result c of
                         Resolved response \<Rightarrow> Some (products response)
                       | Rejected err \<Rightarrow> None)]) cs))"
    if "in_flight v = []" and "\<forall>t \<in> set ts. \<not> is_initial_search (fst t)" for ts v
    using that
  proof (induction ts arbitrary: v)
    case Nil
    then show ?case
      by (simp add: one_at_a_time_def run_Nil)
  next
    case (Cons t ts)
    obtain ev st0 net0 where t: "t = (ev, st0, net0)"
      by (cases t) auto
    let ?v1 = "run (turn_steps (ev, st0, net0)) v"
    from Cons.prems(2) t have ne: "\<not> is_initial_search ev"
      by simp
    from turn [OF Cons.prems(1), of ev st0 net0] obtain c u a where first:
      "in_flight ?v1 = []"
      "done_calls ?v1 = done_calls v @ [c]"
      "messages (page ?v1) = (if is_initial_search ev then [] else messages (page v)) @ [u, a]"
      "msg_type u = User" "msg_products u = None" "msg_type a = Assistant"
      "msg_products a = (case result c of
          Resolved response \<Rightarrow> Some (products response) | Rejected err \<Rightarrow> None)"
      by blast
    from ne first(3) have m1: "messages (page ?v1) = messages (page v) @ [u, a]"
      by simp
    from Cons.prems(2) have rest: "\<forall>t' \<in> set ts. \<not> is_initial_search (fst t')"
      by simp
    have r: "run (one_at_a_time (t # ts)) v = run (one_at_a_time ts) ?v1"
      by (simp only: run_one_at_a_time_Cons t)
    from Cons.IH [OF first(1) rest] obtain cs where more:
      "in_flight (run (one_at_a_time ts) ?v1) = []"
      "done_calls (run (one_at_a_time ts) ?v1) = done_calls ?v1 @ cs"
      "length cs = length ts"
      "map (\<lambda>m. (msg_type m, msg_products m)) (messages (page (run (one_at_a_time ts) ?v1)))
         = map (\<lambda>m. (msg_type m, msg_products m)) (messages (page ?v1))
           @ concat (map (\<lambda>c. [(User, None),
                 (Assistant, case result c of
                    Resolved response \<Rightarrow> Some (products response)
                  | Rejected err \<Rightarrow> None)]) cs)"
      by blast
    show ?case
      using r more first(2,4-7) m1
      by (intro conjI exI [of _ "c # cs"]) simp_all
  qed
  have part2: "run (one_at_a_time turns) initial_session = w'
      \<and> (\<forall>t \<in> set (tl turns). \<not> is_initial_search (fst t))
      \<and> map result (done_calls w') = map Resolved rs \<longrightarrow>
        length (messages (page w')) = 2 * length turns
      \<and> map (\<lambda>m. (msg_type m, msg_products m)) (messages (page w'))
          = concat (map (\<lambda>response. [(User, None), (Assistant, Some (products response))]) rs)"
  proof (intro impI)
    assume b: "run (one_at_a_time turns) initial_session = w'
      \<and> (\<forall>t \<in> set (tl turns). \<not> is_initial_search (fst t))
      \<and> map result (done_calls w') = map Resolved rs"
    have k: "length (done_calls w') = length turns
        \<and> map (\<lambda>m. (msg_type m, msg_products m)) (messages (page w'))
            = concat (map (\<lambda>c. [(User, None),
                      (Assistant, case result c of
                         Resolved response \<Rightarrow> Some (products response)
                       | Rejected err \<Rightarrow> None)]) (done_calls w'))"
    proof (cases turns)
      case Nil
      with b show ?thesis
        by (auto simp: one_at_a_time_def run_Nil fresh)
    next
      case (Cons t rest)
      obtain ev st0 net0 where t: "t = (ev, st0, net0)"
        by (cases t) auto
      let ?w1 = "run (turn_steps (ev, st0, net0)) initial_session"
      from turn [OF fresh(2), of ev st0 net0] obtain c u a where first:
        "in_flight ?w1 = []"
        "done_calls ?w1 = done_calls initial_session @ [c]"
        "messages (page ?w1) =
           (if is_initial_search ev then [] else messages (page initial_session)) @ [u, a]"
        "msg_type u = User" "msg_products u = None" "msg_type a = Assistant"
        "msg_products a = (case result c of
            Resolved response \<Rightarrow> Some (products response) | Rejected err \<Rightarrow> None)"
        by blast
      from first(3) fresh(1) have m1: "messages (page ?w1) = [u, a]"
        by simp
      from b Cons have rest: "\<forall>t' \<in> set rest. \<not> is_initial_search (fst t')"
        by simp
      have r: "w' = run (one_at_a_time rest) ?w1"
        using b Cons t by (simp only: run_one_at_a_time_Cons [symmetric])
      from seq [OF first(1) rest] obtain cs where more:
        "done_calls (run (one_at_a_time rest) ?w1) = done_calls ?w1 @ cs"
        "length cs = length rest"
        "map (\<lambda>m. (msg_type m, msg_products m)) (messages (page (run (one_at_a_time rest) ?w1)))
           = map (\<lambda>m. (msg_type m, msg_products m)) (messages (page ?w1))
             @ concat (map (\<lambda>c. [(User, None),
                   (Assistant, case result c of
                      Resolved response \<Rightarrow> Some (products response)
                    | Rejected err \<Rightarrow> None)]) cs)"
        by blast
      show ?thesis
        using r more first(2,4-7) m1 fresh(3) Cons
        by simp
    qed
    from b have rs: "map result (done_calls w') = map Resolved rs"
      by simp
    have "concat (map (\<lambda>c. [(User, None),
                      (Assistant, case result c of
                         Resolved response \<Rightarrow> Some (products response)
                       | Rejected err \<Rightarrow> None)]) (done_calls w'))
        = concat (map (\<lambda>r. [(User, None),
                      (Assistant, case r of
                         Resolved response \<Rightarrow> Some (products response)
                       | Rejected err \<Rightarrow> None)]) (map result (done_calls w')))"
      by (simp add: comp_def)
    also have "\<dots> =
        concat (map (\<lambda>response. [(User, None), (Assistant, Some (products response))]) rs)"
      by (simp only: rs) (simp add: comp_def)
    finally have m: "map (\<lambda>m. (msg_type m, msg_products m)) (messages (page w'))
        = concat (map (\<lambda>response. [(User, None), (Assistant, Some (products response))]) rs)"
      using k by simp
    from rs have "length rs = length (done_calls w')"
      using length_map [of result "done_calls w'"] length_map [of Resolved rs] by simp
    with k have n: "length rs = length turns"
      by simp
    have "length (concat (map (\<lambda>response. [(User, None :: Product list option),
        (Assistant, Some (products response))]) rs)) = 2 * length rs"
      by (induction rs) simp_all
    with m n have "length (map (\<lambda>m. (msg_type m, msg_products m)) (messages (page w')))
        = 2 * length turns"
      by simp
    then have "length (messages (page w')) = 2 * length turns"
      by simp
    with m show "length (messages (page w')) = 2 * length turns
      \<and> map (\<lambda>m. (msg_type m, msg_products m)) (messages (page w'))
          = concat (map (\<lambda>response. [(User, None), (Assistant, Some (products response))]) rs)"
      by simp
  qed
  from part1 part2 show ?thesis
    by (rule conjI)
qed

theorem transcript_two_per_turn_witness:
  "in_flight (run overlapping_steps initial_session) = []
   \<and> map is_initial_start (tl overlapping_steps) = [False, False, False]
   \<and> length (filter is_start overlapping_steps) = 2
   \<and> length (messages (page (run overlapping_steps initial_session))) = 4
   \<and> length (filter (\<lambda>m. msg_type m = User)
        (messages (page (run overlapping_steps initial_session)))) = 2
   \<and> length (filter (\<lambda>m. msg_type m = Assistant)
        (messages (page (run overlapping_steps initial_session)))) = 2
   \<and> map (\<lambda>t. is_initial_search (fst t)) (tl plain_turns) = [False, False]
   \<and> map result (done_calls (run (one_at_a_time plain_turns) initial_session)) =
       map Resolved [example_response ''s1'', example_response ''s1'', example_response ''s1'']
   \<and> length (messages (page (run (one_at_a_time plain_turns) initial_session))) = 6
   \<and> map (\<lambda>m. (msg_type m, msg_products m))
        (messages (page (run (one_at_a_time plain_turns) initial_session))) =
       [(User, None), (Assistant, Some [example_product]),
        (User, None), (Assistant, Some [example_product]),
        (User, None), (Assistant, Some [example_product])]"
proof -
  have f: "in_flight (run overlapping_steps initial_session) = []"
    by (simp add: overlapping_steps_def eval_simps)
  have i: "\<forall>x \<in> set (tl overlapping_steps). \<not> is_initial_start x"
    and i': "map is_initial_start (tl overlapping_steps) = [False, False, False]"
    and n: "length (filter is_start overlapping_steps) = 2"
    by (simp_all add: overlapping_steps_def)
  have j: "\<forall>t \<in> set (tl plain_turns). \<not> is_initial_search (fst t)"
    and j': "map (\<lambda>t. is_initial_search (fst t)) (tl plain_turns) = [False, False]"
    and l: "length plain_turns = 3"
    by (simp_all add: plain_turns_def)
  have rs: "map result (done_calls (run (one_at_a_time plain_turns) initial_session)) =
       map Resolved [example_response ''s1'', example_response ''s1'', example_response ''s1'']"
    by (simp add: plain_turns_def eval_simps)
  have m: "map (\<lambda>m. (msg_type m, msg_products m))
        (messages (page (run (one_at_a_time plain_turns) initial_session))) =
       [(User, None), (Assistant, Some [example_product]),
        (User, None), (Assistant, Some [example_product]),
        (User, None), (Assistant, Some [example_product])]"
    by (simp add: plain_turns_def eval_simps)
  have o: "map msg_type (messages (page (run overlapping_steps initial_session))) =
       [User, User, Assistant, Assistant]"
    by (simp add: overlapping_steps_def eval_simps)
  from transcript_two_per_turn [of overlapping_steps "run overlapping_steps initial_session"
      plain_turns "run (one_at_a_time plain_turns) initial_session"
      "[example_response ''s1'', example_response ''s1'', example_response ''s1'']"]
    f i i' n j j' l rs m o
  show ?thesis
    by (simp add: example_response_def)
qed

end
